theory Spec2Isabelle
  imports Complex_Main
begin

section \<open>JavaScript values read by the Autoplay component\<close>

text \<open>
  A JavaScript number is \<open>NaN\<close>, an infinity or a finite value. The component never
  calculates with a duration: it only tests it with \<open>||\<close> and \<open>&&\<close>, so a finite
  double is kept as the rational it denotes (\<open>-0\<close> and \<open>+0\<close> are both \<open>Num 0\<close>, and both
  are falsy).
\<close>

datatype number = NaN | Num rat | PosInfinity | NegInfinity

text \<open>Truthiness of a number: every number but \<open>NaN\<close> and zero.\<close>

fun truthy :: "number \<Rightarrow> bool" where
  "truthy NaN = False"
| "truthy (Num q) = (q \<noteq> 0)"
| "truthy PosInfinity = True"
| "truthy NegInfinity = True"

text \<open>
  \<open>Number(v)\<close> for the result \<open>v\<close> of \<open>getAttribute\<close>, which is a string or \<open>null\<close>:
  \<open>Number(null)\<close> is \<open>0\<close>; a string goes through the language's string-to-number
  conversion, which is a parameter of the model (it rounds to a double, which no
  property below depends on).
\<close>

definition Number :: "(string \<Rightarrow> number) \<Rightarrow> string option \<Rightarrow> number" where
  "Number StringToNumber v = (case v of None \<Rightarrow> Num 0 | Some str \<Rightarrow> StringToNumber str)"

text \<open>
  An instance of the string conversion for the examples: the empty string is \<open>0\<close>, a
  string of decimal digits is its value, and a string with any other character is taken
  as \<open>NaN\<close>. It agrees with JavaScript on the empty string, on digit strings and on
  strings that are no numeric literal; it is used at such strings only.
\<close>

fun digits_value :: "string \<Rightarrow> nat \<Rightarrow> nat option" where
  "digits_value [] acc = Some acc"
| "digits_value (c # cs) acc =
     (let d = (of_char c :: nat)
      in if 48 \<le> d \<and> d \<le> 57 then digits_value cs (10 * acc + (d - 48)) else None)"

definition StringToNumber_digits :: "string \<Rightarrow> number" where
  "StringToNumber_digits str =
     (case digits_value str 0 of None \<Rightarrow> NaN | Some n \<Rightarrow> Num (of_nat n))"

text \<open>The \<open>autoplay\<close> option: \<open>undefined\<close>, a boolean or a string.\<close>

datatype autoplay_value = AutoplayUndefined | AutoplayBool bool | AutoplayString string

fun truthy_autoplay :: "autoplay_value \<Rightarrow> bool" where
  "truthy_autoplay AutoplayUndefined = False"
| "truthy_autoplay (AutoplayBool b) = b"
| "truthy_autoplay (AutoplayString str) = (str \<noteq> [])"

text \<open>The options the component reads; \<open>None\<close> is an option left \<open>undefined\<close>.\<close>

record Options =
  opt_autoplay :: autoplay_value
  opt_interval :: "number option"
  opt_pauseOnHover :: "bool option"
  opt_pauseOnFocus :: "bool option"
  opt_resetProgress :: "bool option"

section \<open>The interval scheduler\<close>

text \<open>
  \<open>RequestInterval\<close> is imported from the package \<open>@splidejs/utils\<close> and is not among
  the sources; the scheduler below follows the spec's description of it. Its \<open>cancel\<close>
  and its per-frame callback are left out: no property below is about them. The clock
  is read in milliseconds and passed to the operations that read it.
\<close>

text \<open>
  Modelled from the spec: the fields of the interval scheduler's data model. The
  duration is whatever number the component hands over.
\<close>

record RequestInterval =
  durationMs :: number
  startTimestamp :: "nat option"
  elapsedBeforePause :: nat
  isPaused :: bool
  frameHandle :: bool

text \<open>
  Modelled from the spec: a scheduler is constructed paused, with no start time, no
  elapsed progress and no frame callback (in the spec's scenario the first \<open>play()\<close>
  finds it paused and starts it).
\<close>

definition RequestInterval_new :: "number \<Rightarrow> RequestInterval" where
  "RequestInterval_new d =
     \<lparr> durationMs = d, startTimestamp = None, elapsedBeforePause = 0,
       isPaused = True, frameHandle = False \<rparr>"

text \<open>
  Modelled from the spec: \<open>start(keepExistingElapsed)\<close> is a no-op if already running;
  otherwise it records \<open>startTimestamp = now\<close>, resets \<open>elapsedBeforePause\<close> to 0 unless
  told to keep it, and schedules the per-frame callback.
\<close>

definition interval_start :: "bool \<Rightarrow> nat \<Rightarrow> RequestInterval \<Rightarrow> RequestInterval" where
  "interval_start keepExistingElapsed t r =
     (if \<not> isPaused r then r
      else r\<lparr> startTimestamp := Some t,
             elapsedBeforePause := (if keepExistingElapsed then elapsedBeforePause r else 0),
             isPaused := False,
             frameHandle := True \<rparr>)"

text \<open>
  Modelled from the spec: the time elapsed so far in the current cycle, a clock reading
  before the start counting as no time at all.
\<close>

definition elapsed_so_far :: "nat \<Rightarrow> RequestInterval \<Rightarrow> nat" where
  "elapsed_so_far t r =
     (case startTimestamp r of
        None \<Rightarrow> elapsedBeforePause r
      | Some t0 \<Rightarrow> (if t0 \<le> t then t - t0 else 0) + elapsedBeforePause r)"

text \<open>
  Modelled from the spec: \<open>pause()\<close> is a no-op if not running; otherwise it cancels the
  frame callback, sets \<open>elapsedBeforePause\<close> to the time elapsed so far and marks the
  scheduler paused.
\<close>

definition interval_pause :: "nat \<Rightarrow> RequestInterval \<Rightarrow> RequestInterval" where
  "interval_pause t r =
     (if isPaused r then r
      else r\<lparr> frameHandle := False,
             elapsedBeforePause := elapsed_so_far t r,
             isPaused := True \<rparr>)"

text \<open>
  Modelled from the spec: \<open>rewind()\<close> resets \<open>elapsedBeforePause\<close> to 0 whatever the
  running state and, if running, also resets \<open>startTimestamp\<close> to now.
\<close>

definition interval_rewind :: "nat \<Rightarrow> RequestInterval \<Rightarrow> RequestInterval" where
  "interval_rewind t r =
     r\<lparr> elapsedBeforePause := 0,
        startTimestamp := (if isPaused r then startTimestamp r else Some t) \<rparr>"

text \<open>
  Modelled from the spec: \<open>set(newDurationMs)\<close> updates the duration and does not reset
  the elapsed progress.
\<close>

definition interval_set :: "number \<Rightarrow> RequestInterval \<Rightarrow> RequestInterval" where
  "interval_set d r = r\<lparr> durationMs := d \<rparr>"

section \<open>The Autoplay component\<close>

text \<open>
  The toggle button as the component writes it: the class \<open>CLASS_ACTIVE\<close> and the
  attributes \<open>ARIA_LABEL\<close> and \<open>ARIA_CONTROLS\<close>.
\<close>

record button =
  class_active :: bool
  aria_label :: "string option"
  aria_controls :: "string option"

text \<open>The events the component emits (the per-frame \<open>playing\<close> event is not modelled).\<close>

datatype emitted_event = EVENT_AUTOPLAY_PLAY | EVENT_AUTOPLAY_PAUSE

text \<open>
  The events the component listens to. \<open>EVENT_MOVE\<close> carries the first argument its
  emitter passes to the handlers, \<open>None\<close> for \<open>undefined\<close>.
\<close>

datatype event =
  mouseenter | mouseleave | focusin | focusout | click
  | EVENT_MOVE "int option" | EVENT_SCROLL | EVENT_REFRESH

text \<open>The listeners that \<open>listen()\<close> registers, by the handler each one runs.\<close>

datatype listener = on_hover | on_focus | on_click | on_rewind | on_updateInterval

text \<open>
  What the component reads from its collaborators at the time of a call: the options,
  \<open>Components.Slides.isEnough()\<close>, \<open>Splide.index\<close>, \<open>Components.Slides.getAt\<close> (a slide
  element is given by its attributes), \<open>Splide.i18n\<close>, \<open>Elements.track.id\<close>,
  \<open>Elements.toggle\<close>, the constant \<open>INTERVAL_DATA_ATTRIBUTE\<close> (its module is not among
  the sources), the string-to-number conversion and the clock.
\<close>

record Env =
  options :: Options
  isEnough :: bool
  Splide_index :: int
  getAt :: "int \<Rightarrow> (string \<rightharpoonup> string) option"
  i18n :: "string \<Rightarrow> string"
  track_id :: string
  Elements_toggle :: "button option"
  INTERVAL_DATA_ATTRIBUTE :: string
  StringToNumber :: "string \<Rightarrow> number"
  now :: nat

text \<open>
  The variables of the closure. \<open>hovered\<close> and \<open>focused\<close> are declared without a value;
  they are only read in \<open>hovered || focused\<close>, where \<open>undefined\<close> acts as \<open>false\<close>, so
  they start as \<open>False\<close>. \<open>listeners\<close> and \<open>emitted\<close> record what went to \<open>bind\<close>/\<open>on\<close>
  and to \<open>emit\<close>.
\<close>

record State =
  hovered :: bool
  focused :: bool
  stopped :: bool
  duration :: number
  interval :: RequestInterval
  toggle :: "button option"
  listeners :: "listener list"
  emitted :: "emitted_event list"

text \<open>The body of the constructor: \<open>duration = options.interval || 5000\<close> and so on.\<close>

definition Autoplay :: "Env \<Rightarrow> State" where
  "Autoplay env =
     (let duration = (case opt_interval (options env) of
                        None \<Rightarrow> Num 5000
                      | Some n \<Rightarrow> if truthy n then n else Num 5000)
      in \<lparr> hovered = False, focused = False,
           stopped = (opt_autoplay (options env) = AutoplayString ''pause''),
           duration = duration,
           interval = RequestInterval_new duration,
           toggle = Elements_toggle env,
           listeners = [],
           emitted = [] \<rparr>)"

definition emit :: "emitted_event \<Rightarrow> State \<Rightarrow> State" where
  "emit e s = s\<lparr> emitted := emitted s @ [e] \<rparr>"

text \<open>\<open>updateButton()\<close>: with a toggle button, set the class and the label.\<close>

definition updateButton :: "Env \<Rightarrow> State \<Rightarrow> State" where
  "updateButton env s =
     (case toggle s of
        None \<Rightarrow> s
      | Some b \<Rightarrow>
          s\<lparr> toggle := Some (b\<lparr> class_active := \<not> stopped s,
                                aria_label := Some (i18n env (if stopped s then ''play'' else ''pause'')) \<rparr>) \<rparr>)"

text \<open>
  The value \<open>Slide && Number(getAttribute(Slide.slide, INTERVAL_DATA_ATTRIBUTE)) || duration\<close>.
\<close>

definition slide_interval :: "Env \<Rightarrow> number \<Rightarrow> int \<Rightarrow> number" where
  "slide_interval env d i =
     (case getAt env i of
        None \<Rightarrow> d
      | Some slide \<Rightarrow>
          (let n = Number (StringToNumber env) (slide (INTERVAL_DATA_ATTRIBUTE env))
           in if truthy n then n else d))"

text \<open>\<open>updateInterval(index = Splide.index)\<close>; \<open>None\<close> is a call without the argument.\<close>

definition updateInterval :: "Env \<Rightarrow> int option \<Rightarrow> State \<Rightarrow> State" where
  "updateInterval env arg s =
     (let index = (case arg of None \<Rightarrow> Splide_index env | Some i \<Rightarrow> i)
      in s\<lparr> interval := interval_set (slide_interval env (duration s) index) (interval s) \<rparr>)"

definition play :: "Env \<Rightarrow> State \<Rightarrow> State" where
  "play env s =
     (if isPaused (interval s) \<and> isEnough env then
        (let resetProgress = (case opt_resetProgress (options env) of None \<Rightarrow> True | Some b \<Rightarrow> b);
             s1 = updateInterval env None s;
             s2 = s1\<lparr> interval := interval_start (\<not> resetProgress) (now env) (interval s1) \<rparr>;
             s3 = s2\<lparr> stopped := False, hovered := False, focused := False \<rparr>;
             s4 = updateButton env s3
         in emit EVENT_AUTOPLAY_PLAY s4)
      else s)"

text \<open>\<open>pause(stop = true)\<close>; a call without the argument is \<open>pause env True\<close>.\<close>

definition pause :: "Env \<Rightarrow> bool \<Rightarrow> State \<Rightarrow> State" where
  "pause env stop s =
     (let s1 = s\<lparr> stopped := stop \<rparr>;
          s2 = updateButton env s1
      in if \<not> isPaused (interval s2)
         then emit EVENT_AUTOPLAY_PAUSE (s2\<lparr> interval := interval_pause (now env) (interval s2) \<rparr>)
         else s2)"

definition autoToggle :: "Env \<Rightarrow> State \<Rightarrow> State" where
  "autoToggle env s =
     (if \<not> stopped s
      then (if hovered s \<or> focused s then pause env False s else play env s)
      else s)"

text \<open>The three handlers that \<open>listen()\<close> binds to the root element and the toggle button.\<close>

definition hover_handler :: "Env \<Rightarrow> event \<Rightarrow> State \<Rightarrow> State" where
  "hover_handler env e s = autoToggle env (s\<lparr> hovered := (e = mouseenter) \<rparr>)"

definition focus_handler :: "Env \<Rightarrow> event \<Rightarrow> State \<Rightarrow> State" where
  "focus_handler env e s = autoToggle env (s\<lparr> focused := (e = focusin) \<rparr>)"

definition click_handler :: "Env \<Rightarrow> State \<Rightarrow> State" where
  "click_handler env s = (if stopped s then play env s else pause env True s)"

text \<open>
  \<open>listen()\<close>: the listeners it registers, in the order of the calls of \<open>bind\<close> and \<open>on\<close>.
\<close>

definition listen :: "Env \<Rightarrow> State \<Rightarrow> State" where
  "listen env s =
     (let pauseOnHover = (case opt_pauseOnHover (options env) of None \<Rightarrow> True | Some b \<Rightarrow> b);
          pauseOnFocus = (case opt_pauseOnFocus (options env) of None \<Rightarrow> True | Some b \<Rightarrow> b)
      in s\<lparr> listeners := listeners s
             @ (if pauseOnHover then [on_hover] else [])
             @ (if pauseOnFocus then [on_focus] else [])
             @ (if toggle s \<noteq> None then [on_click] else [])
             @ [on_rewind, on_updateInterval] \<rparr>)"

definition mount :: "Env \<Rightarrow> State \<Rightarrow> State" where
  "mount env s =
     (if truthy_autoplay (opt_autoplay (options env)) then
        (let s1 = listen env s;
             s2 = (case toggle s1 of
                     None \<Rightarrow> s1
                   | Some b \<Rightarrow> s1\<lparr> toggle := Some (b\<lparr> aria_controls := Some (track_id env) \<rparr>) \<rparr>);
             s3 = (if stopped s2 then s2 else play env s2)
         in updateButton env s3)
      else s)"

text \<open>
  The listener \<open>interval.rewind\<close> that \<open>listen()\<close> registers for the three carousel
  events, as a function of the component's state.
\<close>

definition rewind_handler :: "Env \<Rightarrow> State \<Rightarrow> State" where
  "rewind_handler env s = s\<lparr> interval := interval_rewind (now env) (interval s) \<rparr>"

text \<open>
  What one registered listener does with an event: the hover listener hears
  \<open>mouseenter mouseleave\<close>, the focus listener \<open>focusin focusout\<close>, the click listener
  \<open>click\<close>, \<open>interval.rewind\<close> the three carousel events and \<open>updateInterval\<close> the move
  event, which hands it its first argument.
\<close>

fun handle :: "Env \<Rightarrow> event \<Rightarrow> State \<Rightarrow> listener \<Rightarrow> State" where
  "handle env e s on_hover =
     (if e = mouseenter \<or> e = mouseleave then hover_handler env e s else s)"
| "handle env e s on_focus =
     (if e = focusin \<or> e = focusout then focus_handler env e s else s)"
| "handle env e s on_click = (if e = click then click_handler env s else s)"
| "handle env e s on_rewind =
     (case e of
        EVENT_MOVE arg \<Rightarrow> rewind_handler env s
      | EVENT_SCROLL \<Rightarrow> rewind_handler env s
      | EVENT_REFRESH \<Rightarrow> rewind_handler env s
      | _ \<Rightarrow> s)"
| "handle env e s on_updateInterval =
     (case e of EVENT_MOVE arg \<Rightarrow> updateInterval env arg s | _ \<Rightarrow> s)"

text \<open>An event runs the registered listeners in the order of their registration.\<close>

definition dispatch :: "Env \<Rightarrow> event \<Rightarrow> State \<Rightarrow> State" where
  "dispatch env e s = foldl (handle env e) s (listeners s)"

text \<open>
  What can happen to a component: a call of its interface (\<open>mount\<close>, \<open>play\<close>, \<open>pause\<close>
  with its argument) or an event. A run is a list of such inputs, each with the
  collaborators' answers at that moment.
\<close>

datatype input = Mount | Play | Pause bool | Event event

fun step :: "State \<Rightarrow> Env \<times> input \<Rightarrow> State" where
  "step s (env, Mount) = mount env s"
| "step s (env, Play) = play env s"
| "step s (env, Pause stop) = pause env stop s"
| "step s (env, Event e) = dispatch env e s"

definition run :: "State \<Rightarrow> (Env \<times> input) list \<Rightarrow> State" where
  "run s ins = foldl step s ins"

section \<open>Properties of states\<close>

text \<open>None of the three suspend flags is set.\<close>

definition flags_clear :: "State \<Rightarrow> bool" where
  "flags_clear s = (\<not> stopped s \<and> \<not> hovered s \<and> \<not> focused s)"

text \<open>Neither the configured duration nor the scheduler's duration is falsy.\<close>

definition durations_ok :: "State \<Rightarrow> bool" where
  "durations_ok s = (truthy (duration s) \<and> truthy (durationMs (interval s)))"

section \<open>Example configurations\<close>

text \<open>
  Four slides: one without the override attribute, one whose override is \<open>0\<close>, one
  whose override is \<open>8000\<close> and one whose override is no number; no slide elsewhere.
\<close>

definition slides_example :: "int \<Rightarrow> (string \<rightharpoonup> string) option" where
  "slides_example i =
     (if i = 0 then Some Map.empty
      else if i = 1 then Some [''data-splide-interval'' \<mapsto> ''0'']
      else if i = 2 then Some [''data-splide-interval'' \<mapsto> ''8000'']
      else if i = 3 then Some [''data-splide-interval'' \<mapsto> ''abc'']
      else None)"

text \<open>
  The configuration \<open>{autoplay: true, interval: 2000, pauseOnHover: true}\<close> on a slider
  with enough slides and a toggle button.
\<close>

definition env_example :: Env where
  "env_example =
     \<lparr> options = \<lparr> opt_autoplay = AutoplayBool True, opt_interval = Some (Num 2000),
                   opt_pauseOnHover = Some True, opt_pauseOnFocus = None,
                   opt_resetProgress = None \<rparr>,
       isEnough = True, Splide_index = 0, getAt = slides_example, i18n = (\<lambda>key. key),
       track_id = ''splide01-track'',
       Elements_toggle = Some \<lparr> class_active = False, aria_label = None, aria_controls = None \<rparr>,
       INTERVAL_DATA_ATTRIBUTE = ''data-splide-interval'',
       StringToNumber = StringToNumber_digits, now = 1000 \<rparr>"

text \<open>The same slider with \<open>autoplay: false\<close>.\<close>

definition env_off :: Env where
  "env_off =
     env_example\<lparr> options := (options env_example)\<lparr> opt_autoplay := AutoplayBool False \<rparr> \<rparr>"

text \<open>The same slider with \<open>autoplay: 'pause'\<close>.\<close>

definition env_pause :: Env where
  "env_pause =
     env_example\<lparr> options := (options env_example)\<lparr> opt_autoplay := AutoplayString ''pause'' \<rparr> \<rparr>"

text \<open>The same slider with \<open>pauseOnHover: false\<close>.\<close>

definition env_nohover :: Env where
  "env_nohover =
     env_example\<lparr> options := (options env_example)\<lparr> opt_pauseOnHover := Some False \<rparr> \<rparr>"

text \<open>The same configuration on a slider with too few slides.\<close>

definition env_few :: Env where
  "env_few = env_example\<lparr> isEnough := False \<rparr>"

text \<open>The example slider after \<open>mount()\<close>.\<close>

definition mounted_example :: State where
  "mounted_example = mount env_example (Autoplay env_example)"

section \<open>Auxiliary facts\<close>

lemmas component_defs =
  play_def pause_def updateInterval_def updateButton_def emit_def autoToggle_def
  interval_start_def interval_pause_def interval_set_def interval_rewind_def

lemmas handler_defs =
  hover_handler_def focus_handler_def click_handler_def rewind_handler_def

subsection \<open>Invariants of folds\<close>

lemma foldl_invariant:
  assumes "\<And>s l. P s \<Longrightarrow> P (f s l)" and "P s"
  shows "P (foldl f s ls)"
  using assms(2) by (induction ls arbitrary: s) (simp_all add: assms(1))

lemma dispatch_invariant:
  assumes "\<And>s l. P s \<Longrightarrow> P (handle env e s l)" and "P s"
  shows "P (dispatch env e s)"
  unfolding dispatch_def using assms by (rule foldl_invariant)

lemma run_invariant:
  assumes "\<And>s x. P s \<Longrightarrow> Q x \<Longrightarrow> P (step s x)" and "P s" and "\<forall>x\<in>set ins. Q x"
  shows "P (run s ins)"
  unfolding run_def using assms(2,3)
  by (induction ins arbitrary: s) (simp_all add: assms(1))

text \<open>
  A listener registered several times runs several times; for an idempotent handler this
  is the same as running once.
\<close>

lemma foldl_one_listener:
  assumes ff: "\<And>s. f (f s) = f s"
    and h: "\<And>s l. h s l = (if l = a then f s else s)"
  shows "foldl h s ls = (if a \<in> set ls then f s else s)"
  by (induction ls rule: rev_induct) (simp_all add: h ff)

lemma foldl_two_listeners:
  assumes ff: "\<And>s. f (f s) = f s" and gg: "\<And>s. g (g s) = g s"
    and gf: "\<And>s. g (f s) = f (g s)"
    and h: "\<And>s l. h s l = (if l = a then f s else if l = b then g s else s)"
    and ab: "a \<noteq> b"
  shows "foldl h s ls =
           (if a \<in> set ls then f else id) ((if b \<in> set ls then g else id) s)"
  using ab by (induction ls rule: rev_induct) (auto simp: h ff gg gf)

subsection \<open>The fields after \<open>updateButton\<close>, \<open>play\<close> and \<open>pause\<close>\<close>

lemma updateButton_fields:
  "hovered (updateButton env s) = hovered s"
  "focused (updateButton env s) = focused s"
  "stopped (updateButton env s) = stopped s"
  "duration (updateButton env s) = duration s"
  "interval (updateButton env s) = interval s"
  "listeners (updateButton env s) = listeners s"
  "emitted (updateButton env s) = emitted s"
  by (cases "toggle s"; simp add: updateButton_def)+

lemma play_fields:
  "isPaused (interval (play env s)) = (isPaused (interval s) \<and> \<not> isEnough env)"
  "stopped (play env s) = (stopped s \<and> \<not> (isPaused (interval s) \<and> isEnough env))"
  "hovered (play env s) = (hovered s \<and> \<not> (isPaused (interval s) \<and> isEnough env))"
  "focused (play env s) = (focused s \<and> \<not> (isPaused (interval s) \<and> isEnough env))"
  "duration (play env s) = duration s"
  "durationMs (interval (play env s)) =
     (if isPaused (interval s) \<and> isEnough env
      then slide_interval env (duration s) (Splide_index env) else durationMs (interval s))"
  by (auto simp: play_def updateInterval_def emit_def interval_start_def interval_set_def
      Let_def updateButton_fields)

lemma pause_fields:
  "isPaused (interval (pause env stop s))"
  "stopped (pause env stop s) = stop"
  "hovered (pause env stop s) = hovered s"
  "focused (pause env stop s) = focused s"
  "duration (pause env stop s) = duration s"
  "durationMs (interval (pause env stop s)) = durationMs (interval s)"
  by (simp_all add: pause_def emit_def interval_pause_def Let_def updateButton_fields)

subsection \<open>The operations as single updates\<close>

lemma updateButton_eq:
  "updateButton env s =
     s\<lparr> toggle := map_option
          (\<lambda>b. b\<lparr> class_active := \<not> stopped s,
                   aria_label := Some (i18n env (if stopped s then ''play'' else ''pause'')) \<rparr>)
          (toggle s) \<rparr>"
  by (cases "toggle s") (simp_all add: updateButton_def)

lemma play_eq:
  "play env s =
     (if isPaused (interval s) \<and> isEnough env then
        s\<lparr> interval :=
             interval_start (opt_resetProgress (options env) = Some False) (now env)
               (interval_set (slide_interval env (duration s) (Splide_index env)) (interval s)),
           stopped := False, hovered := False, focused := False,
           toggle := map_option (\<lambda>b. b\<lparr> class_active := True,
                                          aria_label := Some (i18n env ''pause'') \<rparr>) (toggle s),
           emitted := emitted s @ [EVENT_AUTOPLAY_PLAY] \<rparr>
      else s)"
  by (cases "opt_resetProgress (options env)")
    (simp_all add: play_def updateInterval_def updateButton_eq emit_def Let_def)

lemma pause_eq:
  "pause env stop s =
     s\<lparr> stopped := stop,
        toggle := map_option
          (\<lambda>b. b\<lparr> class_active := \<not> stop,
                   aria_label := Some (i18n env (if stop then ''play'' else ''pause'')) \<rparr>)
          (toggle s),
        interval := interval_pause (now env) (interval s),
        emitted := (if isPaused (interval s) then emitted s
                    else emitted s @ [EVENT_AUTOPLAY_PAUSE]) \<rparr>"
  by (simp add: pause_def updateButton_eq emit_def interval_pause_def Let_def)

lemma listen_eq:
  "listen env s =
     s\<lparr> listeners := listeners s
          @ (if opt_pauseOnHover (options env) = Some False then [] else [on_hover])
          @ (if opt_pauseOnFocus (options env) = Some False then [] else [on_focus])
          @ (if toggle s = None then [] else [on_click])
          @ [on_rewind, on_updateInterval] \<rparr>"
  by (cases "opt_pauseOnHover (options env)"; cases "opt_pauseOnFocus (options env)")
    (simp_all add: listen_def)

lemma wire_eq:
  "(case toggle s of None \<Rightarrow> s | Some b \<Rightarrow> s\<lparr> toggle := Some (f b) \<rparr>) =
     s\<lparr> toggle := map_option f (toggle s) \<rparr>"
  by (cases "toggle s") simp_all

lemma mount_eq:
  "mount env s =
     (if truthy_autoplay (opt_autoplay (options env)) then
        updateButton env
          ((if stopped s then (\<lambda>s'. s') else play env)
             (s\<lparr> listeners := listeners (listen env s),
                 toggle := map_option (\<lambda>b. b\<lparr> aria_controls := Some (track_id env) \<rparr>) (toggle s) \<rparr>))
      else s)"
  by (simp add: mount_def Let_def wire_eq listen_eq)

subsection \<open>The example states\<close>

lemma env_example_fields:
  "isEnough env_example"
  "Splide_index env_example = 0"
  "now env_example = 1000"
  "i18n env_example = (\<lambda>key. key)"
  "track_id env_example = ''splide01-track''"
  "options env_example =
     \<lparr> opt_autoplay = AutoplayBool True, opt_interval = Some (Num 2000),
       opt_pauseOnHover = Some True, opt_pauseOnFocus = None, opt_resetProgress = None \<rparr>"
  by (simp_all add: env_example_def)

lemma Autoplay_example_value:
  "Autoplay env_example =
     \<lparr> hovered = False, focused = False, stopped = False, duration = Num 2000,
       interval = \<lparr> durationMs = Num 2000, startTimestamp = None, elapsedBeforePause = 0,
                    isPaused = True, frameHandle = False \<rparr>,
       toggle = Some \<lparr> class_active = False, aria_label = None, aria_controls = None \<rparr>,
       listeners = [], emitted = [] \<rparr>"
  by (simp add: Autoplay_def env_example_def RequestInterval_new_def Let_def)

lemma slide_interval_example:
  "slide_interval env_example d 0 = d"
  "slide_interval env_example d 1 = d"
  "slide_interval env_example d 2 = Num 8000"
  "slide_interval env_example d 3 = d"
  "slide_interval env_example d 7 = d"
  by (simp_all add: slide_interval_def Number_def StringToNumber_digits_def env_example_def
      slides_example_def)

lemma mounted_example_value:
  "mounted_example =
     \<lparr> hovered = False, focused = False, stopped = False, duration = Num 2000,
       interval = \<lparr> durationMs = Num 2000, startTimestamp = Some 1000, elapsedBeforePause = 0,
                    isPaused = False, frameHandle = True \<rparr>,
       toggle = Some \<lparr> class_active = True, aria_label = Some ''pause'',
                       aria_controls = Some ''splide01-track'' \<rparr>,
       listeners = [on_hover, on_focus, on_click, on_rewind, on_updateInterval],
       emitted = [EVENT_AUTOPLAY_PLAY] \<rparr>"
proof -
  have "play env_example
          ((Autoplay env_example)
             \<lparr> listeners := listeners (listen env_example (Autoplay env_example)),
               toggle := map_option (\<lambda>b. b\<lparr> aria_controls := Some (track_id env_example) \<rparr>)
                           (toggle (Autoplay env_example)) \<rparr>) =
        \<lparr> hovered = False, focused = False, stopped = False, duration = Num 2000,
          interval = \<lparr> durationMs = Num 2000, startTimestamp = Some 1000,
                       elapsedBeforePause = 0, isPaused = False, frameHandle = True \<rparr>,
          toggle = Some \<lparr> class_active = True, aria_label = Some ''pause'',
                          aria_controls = Some ''splide01-track'' \<rparr>,
          listeners = [on_hover, on_focus, on_click, on_rewind, on_updateInterval],
          emitted = [EVENT_AUTOPLAY_PLAY] \<rparr>"
    unfolding Autoplay_example_value
    by (simp add: play_eq listen_eq env_example_fields slide_interval_example
        interval_start_def interval_set_def)
  then show ?thesis
    unfolding mounted_example_def
    by (simp add: mount_eq updateButton_eq env_example_fields Autoplay_example_value)
qed

lemmas eval_simps =
  interval_start_def interval_set_def interval_pause_def interval_rewind_def
  pause_fields play_fields updateButton_fields Autoplay_example_value mounted_example_value
  env_example_fields

subsection \<open>The flag \<open>stopped\<close>\<close>

lemma stopped_autoToggle: "stopped (autoToggle env s) = stopped s"
  by (simp add: autoToggle_def play_fields pause_fields)

lemma stopped_handle: "e \<noteq> click \<Longrightarrow> stopped (handle env e s l) = stopped s"
  by (cases l; cases e)
    (simp_all add: handler_defs stopped_autoToggle updateInterval_def)

lemma stopped_dispatch: "e \<noteq> click \<Longrightarrow> stopped (dispatch env e s) = stopped s"
  by (rule dispatch_invariant [where P = "\<lambda>s'. stopped s' = stopped s"])
    (simp_all add: stopped_handle)

lemma stopped_mount: "stopped (mount env s) = stopped s"
  by (cases "toggle s")
    (simp_all add: mount_def listen_def Let_def updateButton_fields play_fields)

lemma handle_while_stopped:
  "e \<noteq> click \<Longrightarrow> stopped s \<and> isPaused (interval s)
     \<Longrightarrow> stopped (handle env e s l) \<and> isPaused (interval (handle env e s l))"
  by (cases l; cases e)
    (simp_all add: handler_defs autoToggle_def updateInterval_def
      interval_rewind_def interval_set_def)

subsection \<open>The hover and focus events\<close>

lemma hover_handler_idem:
  "hover_handler env e (hover_handler env e s) = hover_handler env e s"
  by (cases "stopped s"; cases "e = mouseenter"; cases "focused s";
      cases "isPaused (interval s)"; cases "isEnough env"; cases "toggle s")
    (simp_all add: hover_handler_def autoToggle_def play_eq pause_eq interval_pause_def
      interval_start_def interval_set_def)

lemma focus_handler_idem:
  "focus_handler env e (focus_handler env e s) = focus_handler env e s"
  by (cases "stopped s"; cases "e = focusin"; cases "hovered s";
      cases "isPaused (interval s)"; cases "isEnough env"; cases "toggle s")
    (simp_all add: focus_handler_def autoToggle_def play_eq pause_eq interval_pause_def
      interval_start_def interval_set_def)

lemma handle_hover:
  "e = mouseenter \<or> e = mouseleave \<Longrightarrow>
   handle env e s l = (if l = on_hover then hover_handler env e s else s)"
  by (cases l) auto

lemma handle_focus:
  "e = focusin \<or> e = focusout \<Longrightarrow>
   handle env e s l = (if l = on_focus then focus_handler env e s else s)"
  by (cases l) auto

lemma dispatch_hover:
  assumes "e = mouseenter \<or> e = mouseleave"
  shows "dispatch env e s = (if on_hover \<in> set (listeners s) then hover_handler env e s else s)"
  unfolding dispatch_def
  by (rule foldl_one_listener [OF hover_handler_idem handle_hover [OF assms]])

lemma dispatch_focus:
  assumes "e = focusin \<or> e = focusout"
  shows "dispatch env e s = (if on_focus \<in> set (listeners s) then focus_handler env e s else s)"
  unfolding dispatch_def
  by (rule foldl_one_listener [OF focus_handler_idem handle_focus [OF assms]])

lemma hover_handler_cases:
  "hover_handler env e s =
     (if stopped s then s\<lparr> hovered := (e = mouseenter) \<rparr>
      else if e = mouseenter \<or> focused s
        then pause env False (s\<lparr> hovered := (e = mouseenter) \<rparr>)
      else play env (s\<lparr> hovered := False \<rparr>))"
  by (simp add: hover_handler_def autoToggle_def)

lemma focus_handler_cases:
  "focus_handler env e s =
     (if stopped s then s\<lparr> focused := (e = focusin) \<rparr>
      else if hovered s \<or> e = focusin
        then pause env False (s\<lparr> focused := (e = focusin) \<rparr>)
      else play env (s\<lparr> focused := False \<rparr>))"
  by (simp add: focus_handler_def autoToggle_def)

subsection \<open>The carousel events\<close>

lemma rewind_handler_idem: "rewind_handler env (rewind_handler env s) = rewind_handler env s"
  by (simp add: rewind_handler_def interval_rewind_def)

lemma updateInterval_idem:
  "updateInterval env arg (updateInterval env arg s) = updateInterval env arg s"
  by (simp add: updateInterval_def interval_set_def Let_def)

lemma updateInterval_rewind_handler:
  "updateInterval env arg (rewind_handler env s) = rewind_handler env (updateInterval env arg s)"
  by (simp add: updateInterval_def rewind_handler_def interval_set_def interval_rewind_def Let_def)

lemma handle_move:
  "handle env (EVENT_MOVE arg) s l =
     (if l = on_rewind then rewind_handler env s
      else if l = on_updateInterval then updateInterval env arg s else s)"
  by (cases l) simp_all

lemma handle_scroll_refresh:
  "e = EVENT_SCROLL \<or> e = EVENT_REFRESH \<Longrightarrow>
   handle env e s l = (if l = on_rewind then rewind_handler env s else s)"
  by (cases l) auto

lemma dispatch_move:
  "dispatch env (EVENT_MOVE arg) s =
     (if on_rewind \<in> set (listeners s) then rewind_handler env else id)
       ((if on_updateInterval \<in> set (listeners s) then updateInterval env arg else id) s)"
  unfolding dispatch_def
  by (rule foldl_two_listeners
      [OF rewind_handler_idem updateInterval_idem updateInterval_rewind_handler handle_move]) simp

lemma dispatch_scroll_refresh:
  assumes "e = EVENT_SCROLL \<or> e = EVENT_REFRESH"
  shows "dispatch env e s = (if on_rewind \<in> set (listeners s) then rewind_handler env s else s)"
  unfolding dispatch_def
  by (rule foldl_one_listener [OF rewind_handler_idem handle_scroll_refresh [OF assms]])

lemma slide_interval_cases:
  "slide_interval env d i =
     (case getAt env i of
        None \<Rightarrow> d
      | Some slide \<Rightarrow>
          (case slide (INTERVAL_DATA_ATTRIBUTE env) of
             None \<Rightarrow> d
           | Some str \<Rightarrow> if truthy (StringToNumber env str) then StringToNumber env str else d))"
  by (simp add: slide_interval_def Number_def Let_def split: option.splits)

lemma truthy_slide_interval: "truthy d \<Longrightarrow> truthy (slide_interval env d i)"
  by (simp add: slide_interval_def Let_def split: option.splits)

subsection \<open>A running scheduler and the flags\<close>

lemma running_clear_handle:
  "(\<not> isPaused (interval s) \<longrightarrow> flags_clear s)
   \<Longrightarrow> \<not> isPaused (interval (handle env e s l)) \<longrightarrow> flags_clear (handle env e s l)"
  by (cases l; cases e)
    (auto simp: flags_clear_def handler_defs autoToggle_def play_fields pause_fields
      updateInterval_def interval_set_def interval_rewind_def)

lemma running_clear_mount:
  "(\<not> isPaused (interval s) \<longrightarrow> flags_clear s)
   \<Longrightarrow> \<not> isPaused (interval (mount env s)) \<longrightarrow> flags_clear (mount env s)"
  by (cases "toggle s")
    (auto simp: flags_clear_def mount_def listen_def Let_def updateButton_fields play_fields)

lemma running_clear_step:
  assumes "\<not> isPaused (interval s) \<longrightarrow> flags_clear s"
  shows "\<not> isPaused (interval (step s x)) \<longrightarrow> flags_clear (step s x)"
proof (cases x)
  case (Pair env i)
  show ?thesis
  proof (cases i)
    case Mount
    with Pair assms show ?thesis by (simp add: running_clear_mount)
  next
    case Play
    with Pair assms show ?thesis by (auto simp: flags_clear_def play_fields)
  next
    case (Pause stop)
    with Pair show ?thesis by (simp add: pause_fields)
  next
    case (Event e)
    have "\<not> isPaused (interval (dispatch env e s)) \<longrightarrow> flags_clear (dispatch env e s)"
      using assms
      by (rule dispatch_invariant
          [where P = "\<lambda>s'. \<not> isPaused (interval s') \<longrightarrow> flags_clear s'", rotated])
        (rule running_clear_handle)
    with Pair Event show ?thesis by simp
  qed
qed

lemma clear_running_handle:
  "isEnough env \<Longrightarrow> (flags_clear s \<longrightarrow> \<not> isPaused (interval s))
   \<Longrightarrow> flags_clear (handle env e s l) \<longrightarrow> \<not> isPaused (interval (handle env e s l))"
  by (cases l; cases e)
    (auto simp: flags_clear_def handler_defs autoToggle_def play_fields pause_fields
      updateInterval_def interval_set_def interval_rewind_def)

lemma clear_running_mount:
  "isEnough env \<Longrightarrow>
   truthy_autoplay (opt_autoplay (options env)) \<or> (flags_clear s \<longrightarrow> \<not> isPaused (interval s))
   \<Longrightarrow> flags_clear (mount env s) \<longrightarrow> \<not> isPaused (interval (mount env s))"
  by (cases "toggle s")
    (auto simp: flags_clear_def mount_def listen_def Let_def updateButton_fields play_fields)

lemma clear_running_step:
  assumes "flags_clear s \<longrightarrow> \<not> isPaused (interval s)"
    and "isEnough (fst x) \<and> snd x \<noteq> Pause False"
  shows "flags_clear (step s x) \<longrightarrow> \<not> isPaused (interval (step s x))"
proof (cases x)
  case (Pair env i)
  with assms(2) have enough: "isEnough env" and i: "i \<noteq> Pause False" by simp_all
  show ?thesis
  proof (cases i)
    case Mount
    with Pair assms(1) enough show ?thesis by (simp add: clear_running_mount)
  next
    case Play
    with Pair assms(1) enough show ?thesis by (auto simp: flags_clear_def play_fields)
  next
    case (Pause stop)
    with i have "stop" by simp
    with Pair Pause show ?thesis by (simp add: flags_clear_def pause_fields)
  next
    case (Event e)
    have "flags_clear (dispatch env e s) \<longrightarrow> \<not> isPaused (interval (dispatch env e s))"
      using assms(1)
      by (rule dispatch_invariant
          [where P = "\<lambda>s'. flags_clear s' \<longrightarrow> \<not> isPaused (interval s')", rotated])
        (rule clear_running_handle [OF enough])
    with Pair Event show ?thesis by simp
  qed
qed

subsection \<open>The durations\<close>

lemma durations_ok_Autoplay: "durations_ok (Autoplay env)"
  by (simp add: durations_ok_def Autoplay_def RequestInterval_new_def Let_def split: option.splits)

lemma durations_ok_play: "durations_ok s \<Longrightarrow> durations_ok (play env s)"
  by (simp add: durations_ok_def play_fields truthy_slide_interval)

lemma durations_ok_pause: "durations_ok s \<Longrightarrow> durations_ok (pause env stop s)"
  by (simp add: durations_ok_def pause_fields)

lemma durations_ok_handle: "durations_ok s \<Longrightarrow> durations_ok (handle env e s l)"
  by (cases l; cases e)
    (simp_all add: durations_ok_def handler_defs autoToggle_def play_fields pause_fields
      updateInterval_def interval_set_def interval_rewind_def truthy_slide_interval)

lemma durations_ok_mount: "durations_ok s \<Longrightarrow> durations_ok (mount env s)"
  by (cases "toggle s")
    (auto simp: durations_ok_def mount_def listen_def Let_def updateButton_fields play_fields
      truthy_slide_interval)

lemma durations_ok_step: "durations_ok s \<Longrightarrow> durations_ok (step s x)"
proof (cases x)
  case (Pair env i)
  assume ok: "durations_ok s"
  show ?thesis
  proof (cases i)
    case (Event e)
    have "durations_ok (dispatch env e s)"
      using ok by (rule dispatch_invariant [where P = durations_ok, rotated])
        (rule durations_ok_handle)
    with Pair Event show ?thesis by simp
  qed (use Pair ok in \<open>simp_all add: durations_ok_mount durations_ok_play durations_ok_pause\<close>)
qed

section \<open>The operations \<open>play\<close> and \<open>pause\<close>\<close>

text \<open>
  Claim C1. \<open>play()\<close> changes nothing and emits nothing when the scheduler is running
  or \<open>isEnough()\<close> is false, whatever the flags. Otherwise it sets the scheduler's
  duration from the current slide, starts the scheduler (keeping the elapsed progress
  exactly when \<open>resetProgress\<close> is \<open>false\<close>, resetting it to 0 otherwise), clears
  \<open>stopped\<close>, \<open>hovered\<close> and \<open>focused\<close>, updates the toggle button and emits the play
  event; nothing else changes.
\<close>

theorem play_effect:
  "(\<not> (isPaused (interval s) \<and> isEnough env) \<longrightarrow> play env s = s)
   \<and> (isPaused (interval s) \<and> isEnough env \<longrightarrow>
        play env s =
          s\<lparr> interval :=
               interval_start (opt_resetProgress (options env) = Some False) (now env)
                 (interval_set (slide_interval env (duration s) (Splide_index env)) (interval s)),
             stopped := False, hovered := False, focused := False,
             toggle := map_option (\<lambda>b. b\<lparr> class_active := True,
                                            aria_label := Some (i18n env ''pause'') \<rparr>) (toggle s),
             emitted := emitted s @ [EVENT_AUTOPLAY_PLAY] \<rparr>
        \<and> \<not> isPaused (interval (play env s))
        \<and> durationMs (interval (play env s)) = slide_interval env (duration s) (Splide_index env)
        \<and> elapsedBeforePause (interval (play env s)) =
            (if opt_resetProgress (options env) = Some False
             then elapsedBeforePause (interval s) else 0))"
  by (auto simp: play_def updateInterval_def updateButton_def emit_def interval_start_def
      interval_set_def Let_def split: option.splits)

theorem play_effect_witness:
  "isPaused (interval (Autoplay env_example)) \<and> isEnough env_example
   \<and> \<not> isPaused (interval (play env_example (Autoplay env_example)))
   \<and> elapsedBeforePause (interval (play env_example (Autoplay env_example))) = 0
   \<and> durationMs (interval (play env_example (Autoplay env_example))) = Num 2000
   \<and> \<not> isEnough env_few
   \<and> play env_few (Autoplay env_example) = Autoplay env_example"
proof -
  have h1: "isPaused (interval (Autoplay env_example)) \<and> isEnough env_example"
    by (simp add: Autoplay_example_value env_example_fields)
  have h2: "\<not> isEnough env_few"
    by (simp add: env_few_def)
  have h3: "opt_resetProgress (options env_example) \<noteq> Some False"
    by (simp add: env_example_fields)
  have h4: "slide_interval env_example (duration (Autoplay env_example))
      (Splide_index env_example) = Num 2000"
    by (simp add: env_example_fields slide_interval_example Autoplay_example_value)
  from play_effect [of "Autoplay env_example" env_example] h1 h3 h4
  have c1: "\<not> isPaused (interval (play env_example (Autoplay env_example)))
      \<and> elapsedBeforePause (interval (play env_example (Autoplay env_example))) = 0
      \<and> durationMs (interval (play env_example (Autoplay env_example))) = Num 2000"
    by (simp add: eval_simps)
  from play_effect [of "Autoplay env_example" env_few] h2
  have c2: "play env_few (Autoplay env_example) = Autoplay env_example"
    by (simp add: eval_simps)
  from h1 h2 c1 c2 show ?thesis by blast
qed

text \<open>
  Claim C2. \<open>pause(stop)\<close> sets \<open>stopped\<close> to \<open>stop\<close> and updates the toggle button in every
  state. If the scheduler was running it pauses it (freezing the elapsed time) and emits
  the pause event; if the scheduler was already paused it leaves the scheduler alone and
  emits nothing. An event is emitted if and only if the scheduler was running.
\<close>

theorem pause_effect:
  "stopped (pause env stop s) = stop
   \<and> toggle (pause env stop s) =
       map_option (\<lambda>b. b\<lparr> class_active := \<not> stop,
                           aria_label := Some (i18n env (if stop then ''play'' else ''pause'')) \<rparr>)
         (toggle s)
   \<and> isPaused (interval (pause env stop s))
   \<and> interval (pause env stop s) = interval_pause (now env) (interval s)
   \<and> (isPaused (interval s) \<longrightarrow> interval (pause env stop s) = interval s)
   \<and> (\<not> isPaused (interval s) \<longrightarrow>
        elapsedBeforePause (interval (pause env stop s)) = elapsed_so_far (now env) (interval s)
      \<and> \<not> frameHandle (interval (pause env stop s)))
   \<and> emitted (pause env stop s) =
       (if isPaused (interval s) then emitted s else emitted s @ [EVENT_AUTOPLAY_PAUSE])
   \<and> (emitted (pause env stop s) \<noteq> emitted s) = (\<not> isPaused (interval s))
   \<and> hovered (pause env stop s) = hovered s
   \<and> focused (pause env stop s) = focused s
   \<and> duration (pause env stop s) = duration s
   \<and> listeners (pause env stop s) = listeners s"
  by (cases "toggle s")
    (auto simp: pause_def updateButton_def emit_def interval_pause_def Let_def)

theorem pause_effect_witness:
  "\<not> isPaused (interval mounted_example)
   \<and> stopped (pause env_example True mounted_example)
   \<and> isPaused (interval (pause env_example True mounted_example))
   \<and> emitted (pause env_example True mounted_example)
       = [EVENT_AUTOPLAY_PLAY, EVENT_AUTOPLAY_PAUSE]
   \<and> isPaused (interval (Autoplay env_example))
   \<and> \<not> stopped (pause env_example False (Autoplay env_example))
   \<and> interval (pause env_example False (Autoplay env_example)) = interval (Autoplay env_example)
   \<and> emitted (pause env_example False (Autoplay env_example)) = []"
proof -
  have h1: "\<not> isPaused (interval mounted_example)"
    and e1: "emitted mounted_example = [EVENT_AUTOPLAY_PLAY]"
    by (simp_all add: mounted_example_value)
  have h2: "isPaused (interval (Autoplay env_example))"
    and e2: "emitted (Autoplay env_example) = []"
    by (simp_all add: Autoplay_example_value)
  from pause_effect [of env_example True mounted_example] h1 e1
  have c1: "stopped (pause env_example True mounted_example)
      \<and> isPaused (interval (pause env_example True mounted_example))
      \<and> emitted (pause env_example True mounted_example)
          = [EVENT_AUTOPLAY_PLAY, EVENT_AUTOPLAY_PAUSE]"
    by (simp add: eval_simps)
  from pause_effect [of env_example False "Autoplay env_example"] h2 e2
  have c2: "\<not> stopped (pause env_example False (Autoplay env_example))
      \<and> interval (pause env_example False (Autoplay env_example)) = interval (Autoplay env_example)
      \<and> emitted (pause env_example False (Autoplay env_example)) = []"
    by (simp add: eval_simps)
  from h1 h2 c1 c2 show ?thesis by blast
qed

section \<open>The hover and focus events\<close>

text \<open>
  Claim C3, as the code has it. With the hover listener registered, a \<open>mouseenter\<close> or
  \<open>mouseleave\<close> event first sets \<open>hovered\<close> (true exactly for \<open>mouseenter\<close>); with the
  focus listener registered, a \<open>focusin\<close> or \<open>focusout\<close> event first sets \<open>focused\<close> (true
  exactly for \<open>focusin\<close>). Then, if \<open>stopped\<close> is true, nothing else changes; if \<open>stopped\<close>
  is false and one of the two flags is now set, the event is \<open>pause(false)\<close>, after which
  the scheduler is paused and \<open>stopped\<close> is still false; if \<open>stopped\<close> is false and both
  flags are now false, the event is \<open>play()\<close>, after which the scheduler is paused
  exactly when it was paused before and \<open>isEnough()\<close> is false: a mouse-leave while not
  stopped resumes when there are enough slides, and only then.
\<close>

theorem hover_focus_events:
  "(on_hover \<in> set (listeners s) \<longrightarrow>
      (\<forall>e \<in> {mouseenter, mouseleave}.
         (stopped s \<longrightarrow> dispatch env e s = s\<lparr> hovered := (e = mouseenter) \<rparr>)
       \<and> (\<not> stopped s \<and> (e = mouseenter \<or> focused s) \<longrightarrow>
            dispatch env e s = pause env False (s\<lparr> hovered := (e = mouseenter) \<rparr>)
          \<and> \<not> stopped (dispatch env e s)
          \<and> isPaused (interval (dispatch env e s)))
       \<and> (\<not> stopped s \<and> e = mouseleave \<and> \<not> focused s \<longrightarrow>
            dispatch env e s = play env (s\<lparr> hovered := False \<rparr>)
          \<and> isPaused (interval (dispatch env e s))
              = (isPaused (interval s) \<and> \<not> isEnough env))))
   \<and> (on_focus \<in> set (listeners s) \<longrightarrow>
      (\<forall>e \<in> {focusin, focusout}.
         (stopped s \<longrightarrow> dispatch env e s = s\<lparr> focused := (e = focusin) \<rparr>)
       \<and> (\<not> stopped s \<and> (hovered s \<or> e = focusin) \<longrightarrow>
            dispatch env e s = pause env False (s\<lparr> focused := (e = focusin) \<rparr>)
          \<and> \<not> stopped (dispatch env e s)
          \<and> isPaused (interval (dispatch env e s)))
       \<and> (\<not> stopped s \<and> \<not> hovered s \<and> e = focusout \<longrightarrow>
            dispatch env e s = play env (s\<lparr> focused := False \<rparr>)
          \<and> isPaused (interval (dispatch env e s))
              = (isPaused (interval s) \<and> \<not> isEnough env))))"
proof -
  have hover: "dispatch env e s = hover_handler env e s"
    if "on_hover \<in> set (listeners s)" "e = mouseenter \<or> e = mouseleave" for e
    using that by (simp add: dispatch_hover)
  have focus: "dispatch env e s = focus_handler env e s"
    if "on_focus \<in> set (listeners s)" "e = focusin \<or> e = focusout" for e
    using that by (simp add: dispatch_focus)
  show ?thesis
  proof (intro conjI impI ballI)
    fix e assume "on_hover \<in> set (listeners s)" "e \<in> {mouseenter, mouseleave}"
    then have d: "dispatch env e s = hover_handler env e s"
      using hover by auto
    show "dispatch env e s = s\<lparr> hovered := (e = mouseenter) \<rparr>" if "stopped s"
      unfolding d using that by (simp add: hover_handler_cases)
    show "dispatch env e s = pause env False (s\<lparr> hovered := (e = mouseenter) \<rparr>)"
      and "\<not> stopped (dispatch env e s)"
      and "isPaused (interval (dispatch env e s))"
      if "\<not> stopped s \<and> (e = mouseenter \<or> focused s)"
      unfolding d using that by (auto simp: hover_handler_cases pause_fields)
    show "dispatch env e s = play env (s\<lparr> hovered := False \<rparr>)"
      and "isPaused (interval (dispatch env e s)) = (isPaused (interval s) \<and> \<not> isEnough env)"
      if "\<not> stopped s \<and> e = mouseleave \<and> \<not> focused s"
      unfolding d using that by (simp_all add: hover_handler_cases play_fields)
  next
    fix e assume "on_focus \<in> set (listeners s)" "e \<in> {focusin, focusout}"
    then have d: "dispatch env e s = focus_handler env e s"
      using focus by auto
    show "dispatch env e s = s\<lparr> focused := (e = focusin) \<rparr>" if "stopped s"
      unfolding d using that by (simp add: focus_handler_cases)
    show "dispatch env e s = pause env False (s\<lparr> focused := (e = focusin) \<rparr>)"
      and "\<not> stopped (dispatch env e s)"
      and "isPaused (interval (dispatch env e s))"
      if "\<not> stopped s \<and> (hovered s \<or> e = focusin)"
      unfolding d using that by (auto simp: focus_handler_cases pause_fields)
    show "dispatch env e s = play env (s\<lparr> focused := False \<rparr>)"
      and "isPaused (interval (dispatch env e s)) = (isPaused (interval s) \<and> \<not> isEnough env)"
      if "\<not> stopped s \<and> \<not> hovered s \<and> e = focusout"
      unfolding d using that by (simp_all add: focus_handler_cases play_fields)
  qed
qed

theorem hover_focus_events_witness:
  "on_hover \<in> set (listeners mounted_example) \<and> on_focus \<in> set (listeners mounted_example)
   \<and> \<not> stopped mounted_example \<and> \<not> hovered mounted_example \<and> \<not> focused mounted_example
   \<and> isEnough env_example
   \<and> dispatch env_example mouseenter mounted_example
       = pause env_example False (mounted_example\<lparr> hovered := True \<rparr>)
   \<and> isPaused (interval (dispatch env_example mouseenter mounted_example))
   \<and> \<not> stopped (dispatch env_example mouseenter mounted_example)
   \<and> \<not> isPaused (interval (dispatch env_example mouseleave
          (dispatch env_example mouseenter mounted_example)))
   \<and> isPaused (interval (dispatch env_example focusin mounted_example))
   \<and> dispatch env_example focusout mounted_example
       = play env_example (mounted_example\<lparr> focused := False \<rparr>)
   \<and> stopped (pause env_example True mounted_example)
   \<and> dispatch env_example mouseleave (pause env_example True mounted_example)
       = (pause env_example True mounted_example)\<lparr> hovered := False \<rparr>"
proof -
  let ?h = "dispatch env_example mouseenter mounted_example"
  let ?p = "pause env_example True mounted_example"
  have h1: "on_hover \<in> set (listeners mounted_example)
      \<and> on_focus \<in> set (listeners mounted_example)
      \<and> \<not> stopped mounted_example \<and> \<not> hovered mounted_example
      \<and> \<not> focused mounted_example \<and> isEnough env_example"
    by (simp add: mounted_example_value env_example_fields)
  from hover_focus_events [of mounted_example env_example] h1
  have c1: "?h = pause env_example False (mounted_example\<lparr> hovered := True \<rparr>)
      \<and> isPaused (interval ?h) \<and> \<not> stopped ?h"
    by (simp add: pause_fields play_fields)
  with h1 have h2: "on_hover \<in> set (listeners ?h) \<and> \<not> focused ?h"
    by (simp add: pause_eq)
  from hover_focus_events [of ?h env_example] c1 h1 h2
  have c2: "\<not> isPaused (interval (dispatch env_example mouseleave ?h))"
    by (simp add: pause_fields play_fields)
  from hover_focus_events [of mounted_example env_example] h1
  have c3: "isPaused (interval (dispatch env_example focusin mounted_example))"
    and c4: "dispatch env_example focusout mounted_example
      = play env_example (mounted_example\<lparr> focused := False \<rparr>)"
    by (simp_all add: pause_fields play_fields)
  from h1 have h3: "stopped ?p \<and> on_hover \<in> set (listeners ?p)"
    by (simp add: pause_eq)
  from hover_focus_events [of ?p env_example] h3
  have c5: "dispatch env_example mouseleave ?p = ?p\<lparr> hovered := False \<rparr>"
    by (simp add: pause_fields play_fields)
  from h1 c1 c2 c3 c4 h3 c5 show ?thesis by blast
qed

text \<open>
  The claim as written fails: on a slider with too few slides a \<open>mouseleave\<close> while not
  stopped, with both flags false afterwards, calls \<open>play()\<close> and the scheduler stays
  paused; so it does after a \<open>mouseenter\<close> has paused a running scheduler, when
  \<open>isEnough()\<close> is false at the \<open>mouseleave\<close>.
\<close>

theorem hover_leave_without_resume:
  "on_hover \<in> set (listeners (mount env_few (Autoplay env_few)))
   \<and> \<not> stopped (mount env_few (Autoplay env_few))
   \<and> \<not> focused (mount env_few (Autoplay env_few))
   \<and> isPaused (interval (dispatch env_few mouseleave (mount env_few (Autoplay env_few))))
   \<and> \<not> stopped (dispatch env_few mouseleave (mount env_few (Autoplay env_few)))
   \<and> \<not> hovered (dispatch env_few mouseleave (mount env_few (Autoplay env_few)))
   \<and> \<not> focused (dispatch env_few mouseleave (mount env_few (Autoplay env_few)))
   \<and> \<not> isPaused (interval mounted_example)
   \<and> \<not> stopped (dispatch env_example mouseenter mounted_example)
   \<and> isPaused (interval (dispatch env_few mouseleave
        (dispatch env_example mouseenter mounted_example)))
   \<and> \<not> stopped (dispatch env_few mouseleave
        (dispatch env_example mouseenter mounted_example))
   \<and> \<not> hovered (dispatch env_few mouseleave
        (dispatch env_example mouseenter mounted_example))
   \<and> \<not> focused (dispatch env_few mouseleave
        (dispatch env_example mouseenter mounted_example))"
proof -
  let ?m = "mount env_few (Autoplay env_few)"
  let ?h = "dispatch env_example mouseenter mounted_example"
  have env: "truthy_autoplay (opt_autoplay (options env_few))" "\<not> isEnough env_few"
    "opt_pauseOnHover (options env_few) = Some True"
    by (simp_all add: env_few_def env_example_fields)
  have init: "\<not> stopped (Autoplay env_few)" "\<not> hovered (Autoplay env_few)"
    "\<not> focused (Autoplay env_few)" "isPaused (interval (Autoplay env_few))"
    "listeners (Autoplay env_few) = []"
    by (simp_all add: Autoplay_def RequestInterval_new_def Let_def env_few_def env_example_def)
  have m: "on_hover \<in> set (listeners ?m)" "\<not> stopped ?m" "\<not> hovered ?m" "\<not> focused ?m"
    "isPaused (interval ?m)"
    by (simp_all add: mount_eq listen_eq updateButton_eq play_eq env init)
  have d1: "dispatch env_few mouseleave ?m = play env_few (?m\<lparr> hovered := False \<rparr>)"
    using m by (simp add: dispatch_hover hover_handler_cases)
  have h: "?h = pause env_example False (mounted_example\<lparr> hovered := True \<rparr>)"
    by (simp add: dispatch_hover hover_handler_cases mounted_example_value)
  have hf: "on_hover \<in> set (listeners ?h)" "\<not> stopped ?h" "\<not> focused ?h"
    "isPaused (interval ?h)"
    unfolding h by (simp_all add: pause_eq interval_pause_def mounted_example_value)
  have d2: "dispatch env_few mouseleave ?h = play env_few (?h\<lparr> hovered := False \<rparr>)"
    using hf by (simp add: dispatch_hover hover_handler_cases)
  have r: "\<not> isPaused (interval mounted_example)"
    by (simp add: mounted_example_value)
  show ?thesis
    unfolding d1 d2 using m hf r env by (simp add: play_fields)
qed

section \<open>The flag \<open>stopped\<close>\<close>

text \<open>
  Claim C4. In every state (so in every reachable one) a hover or focus handler, and
  the dispatch of a hover or focus event to whatever listeners are registered, leaves
  \<open>stopped\<close> as it was. If one input changes \<open>stopped\<close>, the input is a call of \<open>play()\<close>
  (which turned it from true to false), a call of \<open>pause(stop)\<close> (which set it to \<open>stop\<close>)
  or a click on the toggle button.
\<close>

theorem stopped_only_by_play_or_pause:
  "stopped (hover_handler env e s) = stopped s
   \<and> stopped (focus_handler env e s) = stopped s
   \<and> (\<forall>e \<in> {mouseenter, mouseleave, focusin, focusout}.
        stopped (dispatch env e s) = stopped s)
   \<and> (stopped (step s (env, i)) \<noteq> stopped s \<longrightarrow>
        i = Play \<and> stopped s \<and> \<not> stopped (play env s)
      \<or> (\<exists>stop. i = Pause stop \<and> stopped (pause env stop s) = stop)
      \<or> i = Event click)"
proof -
  have "stopped (hover_handler env e s) = stopped s"
    and "stopped (focus_handler env e s) = stopped s"
    by (simp_all add: hover_handler_def focus_handler_def stopped_autoToggle)
  moreover have "\<forall>e \<in> {mouseenter, mouseleave, focusin, focusout}.
      stopped (dispatch env e s) = stopped s"
    by (simp add: stopped_dispatch)
  moreover have "stopped (step s (env, i)) \<noteq> stopped s \<longrightarrow>
        i = Play \<and> stopped s \<and> \<not> stopped (play env s)
      \<or> (\<exists>stop. i = Pause stop \<and> stopped (pause env stop s) = stop)
      \<or> i = Event click"
  proof (cases i)
    case Mount
    then show ?thesis by (simp add: stopped_mount)
  next
    case Play
    then show ?thesis by (auto simp: play_fields)
  next
    case (Pause stop)
    then show ?thesis by (simp add: pause_fields)
  next
    case (Event e')
    then show ?thesis by (cases "e' = click") (simp_all add: stopped_dispatch)
  qed
  ultimately show ?thesis by blast
qed

theorem stopped_only_by_play_or_pause_witness:
  "stopped (step mounted_example (env_example, Event click)) \<noteq> stopped mounted_example
   \<and> stopped (dispatch env_example mouseenter mounted_example) = stopped mounted_example
   \<and> stopped (dispatch env_example focusout mounted_example) = stopped mounted_example"
proof -
  have h: "stopped (step mounted_example (env_example, Event click)) \<noteq> stopped mounted_example"
    by (simp add: dispatch_def mounted_example_value click_handler_def pause_fields)
  from stopped_only_by_play_or_pause [of env_example mouseenter mounted_example "Event click"] h
  have c: "stopped (dispatch env_example mouseenter mounted_example) = stopped mounted_example
      \<and> stopped (dispatch env_example focusout mounted_example) = stopped mounted_example"
    by (simp add: eval_simps)
  from h c show ?thesis by blast
qed

text \<open>
  Claim C5. After \<open>pause(true)\<close>, in whatever state it was called, no sequence of
  events other than a click on the toggle button (so no sequence of hover and focus
  events, whatever the collaborators answer in between) restarts the scheduler: it stays
  paused and \<open>stopped\<close> stays true. A call of \<open>play()\<close> then starts it again when there are
  enough slides.
\<close>

theorem no_restart_after_explicit_pause:
  assumes "\<forall>x \<in> set ins. \<exists>e. snd x = Event e \<and> e \<noteq> click"
  shows "isPaused (interval (run (pause env True s) ins))
         \<and> stopped (run (pause env True s) ins)
         \<and> (isEnough env' \<longrightarrow> \<not> isPaused (interval (play env' (run (pause env True s) ins))))"
proof -
  let ?P = "\<lambda>s'. stopped s' \<and> isPaused (interval s')"
  have start: "?P (pause env True s)"
    by (simp add: pause_fields)
  have "?P (run (pause env True s) ins)"
  proof (rule run_invariant [where P = ?P and Q = "\<lambda>x. \<exists>e. snd x = Event e \<and> e \<noteq> click"])
    fix s' :: State and x :: "Env \<times> input"
    assume inv: "?P s'" and ev: "\<exists>e. snd x = Event e \<and> e \<noteq> click"
    then obtain env'' e where x: "x = (env'', Event e)" and e: "e \<noteq> click"
      by (cases x) auto
    have "?P (dispatch env'' e s')"
      using inv by (rule dispatch_invariant [where P = ?P, rotated])
        (rule handle_while_stopped [OF e])
    then show "?P (step s' x)" by (simp add: x)
  next
    show "?P (pause env True s)" by (rule start)
    show "\<forall>x \<in> set ins. \<exists>e. snd x = Event e \<and> e \<noteq> click" by (rule assms)
  qed
  then show ?thesis by (simp add: play_fields)
qed

theorem no_restart_after_explicit_pause_witness:
  "\<not> isPaused (interval mounted_example) \<and> isEnough env_example
   \<and> isPaused (interval (run (pause env_example True mounted_example)
        [(env_example, Event mouseenter), (env_example, Event mouseleave),
         (env_example, Event focusin), (env_example, Event focusout)]))
   \<and> stopped (run (pause env_example True mounted_example)
        [(env_example, Event mouseenter), (env_example, Event mouseleave),
         (env_example, Event focusin), (env_example, Event focusout)])
   \<and> \<not> isPaused (interval (play env_example (run (pause env_example True mounted_example)
        [(env_example, Event mouseenter), (env_example, Event mouseleave),
         (env_example, Event focusin), (env_example, Event focusout)])))"
proof -
  let ?ins = "[(env_example, Event mouseenter), (env_example, Event mouseleave),
               (env_example, Event focusin), (env_example, Event focusout)]"
  have h: "\<forall>x \<in> set ?ins. \<exists>e. snd x = Event e \<and> e \<noteq> click"
    by simp
  have h1: "\<not> isPaused (interval mounted_example) \<and> isEnough env_example"
    by (simp add: mounted_example_value env_example_fields)
  from no_restart_after_explicit_pause [OF h, of env_example mounted_example env_example] h1
  show ?thesis by (simp add: eval_simps)
qed

section \<open>Carousel events and durations\<close>

text \<open>
  Claim C6. Once the listeners of \<open>listen()\<close> are registered, a scroll or refresh event
  rewinds the scheduler, in every state, and changes nothing else, so not the duration;
  a move event rewinds the scheduler and sets its duration for the slide the event names
  (the current slide when it names none): the number the slide's override attribute
  converts to, or the configured default when there is no such slide, the slide has no
  override attribute, or the attribute converts to \<open>NaN\<close> (or to zero).
\<close>

theorem navigation_events:
  "(on_rewind \<in> set (listeners s) \<longrightarrow>
      dispatch env EVENT_SCROLL s = s\<lparr> interval := interval_rewind (now env) (interval s) \<rparr>
    \<and> dispatch env EVENT_REFRESH s = s\<lparr> interval := interval_rewind (now env) (interval s) \<rparr>)
   \<and> (on_rewind \<in> set (listeners s) \<and> on_updateInterval \<in> set (listeners s) \<longrightarrow>
        dispatch env (EVENT_MOVE arg) s =
          s\<lparr> interval :=
               interval_set
                 (slide_interval env (duration s) (case arg of None \<Rightarrow> Splide_index env | Some i \<Rightarrow> i))
                 (interval_rewind (now env) (interval s)) \<rparr>)
   \<and> durationMs (interval (dispatch env EVENT_SCROLL s)) = durationMs (interval s)
   \<and> durationMs (interval (dispatch env EVENT_REFRESH s)) = durationMs (interval s)
   \<and> elapsedBeforePause (interval_rewind (now env) (interval s)) = 0
   \<and> (getAt env i = None \<longrightarrow> slide_interval env d i = d)
   \<and> (\<forall>slide. getAt env i = Some slide \<longrightarrow>
        slide_interval env d i =
          (case slide (INTERVAL_DATA_ATTRIBUTE env) of
             None \<Rightarrow> d
           | Some str \<Rightarrow>
               if StringToNumber env str = NaN \<or> StringToNumber env str = Num 0 then d
               else StringToNumber env str))"
proof -
  have truthy_eq: "\<And>n. truthy n = (\<not> (n = NaN \<or> n = Num 0))"
    by (case_tac n) simp_all
  show ?thesis
    by (simp add: dispatch_move dispatch_scroll_refresh rewind_handler_def updateInterval_def
      interval_set_def interval_rewind_def Let_def slide_interval_cases truthy_eq
      split: option.splits)
qed

theorem navigation_events_witness:
  "on_rewind \<in> set (listeners mounted_example)
   \<and> on_updateInterval \<in> set (listeners mounted_example)
   \<and> dispatch env_example (EVENT_MOVE (Some 2)) mounted_example =
       mounted_example\<lparr> interval :=
         interval_set (Num 8000) (interval_rewind 1000 (interval mounted_example)) \<rparr>
   \<and> dispatch env_example EVENT_SCROLL mounted_example =
       mounted_example\<lparr> interval := interval_rewind 1000 (interval mounted_example) \<rparr>
   \<and> getAt env_example 7 = None
   \<and> slide_interval env_example (Num 2000) 7 = Num 2000
   \<and> getAt env_example 3 = Some [''data-splide-interval'' \<mapsto> ''abc'']
   \<and> StringToNumber env_example ''abc'' = NaN
   \<and> slide_interval env_example (Num 2000) 3 = Num 2000"
proof -
  have h1: "on_rewind \<in> set (listeners mounted_example)
      \<and> on_updateInterval \<in> set (listeners mounted_example)"
    by (simp add: mounted_example_value)
  have h2: "getAt env_example 7 = None"
    and h3: "getAt env_example 3 = Some [''data-splide-interval'' \<mapsto> ''abc'']"
    and h4: "StringToNumber env_example ''abc'' = NaN"
    and h5: "INTERVAL_DATA_ATTRIBUTE env_example = ''data-splide-interval''"
    by (simp_all add: env_example_def slides_example_def StringToNumber_digits_def)
  have h6: "slide_interval env_example (duration mounted_example) 2 = Num 8000"
    by (simp add: slide_interval_example)
  from navigation_events [of mounted_example env_example "Some 2" 7 "Num 2000"] h1 h2 h6
  have c1: "dispatch env_example (EVENT_MOVE (Some 2)) mounted_example =
       mounted_example\<lparr> interval :=
         interval_set (Num 8000) (interval_rewind 1000 (interval mounted_example)) \<rparr>
     \<and> dispatch env_example EVENT_SCROLL mounted_example =
       mounted_example\<lparr> interval := interval_rewind 1000 (interval mounted_example) \<rparr>
     \<and> slide_interval env_example (Num 2000) 7 = Num 2000"
    by (simp add: env_example_fields)
  from navigation_events [of mounted_example env_example "Some 2" 3 "Num 2000"] h3 h4 h5
  have c2: "slide_interval env_example (Num 2000) 3 = Num 2000"
    by (simp add: eval_simps)
  from h1 h2 h3 h4 c1 c2 show ?thesis by blast
qed

text \<open>
  Claim C9. A slide whose override attribute converts to zero makes \<open>updateInterval\<close>
  set the configured default duration; an \<open>interval\<close> option of zero makes the configured
  default 5000; and zero is never a duration: after any run from the initial state,
  neither the configured default nor the scheduler's duration is zero.
\<close>

theorem zero_is_never_a_duration:
  "(\<forall>slide. getAt env i = Some slide
        \<and> Number (StringToNumber env) (slide (INTERVAL_DATA_ATTRIBUTE env)) = Num 0 \<longrightarrow>
      durationMs (interval (updateInterval env (Some i) s)) = duration s)
   \<and> (opt_interval (options env) = Some (Num 0) \<longrightarrow>
        duration (Autoplay env) = Num 5000
      \<and> durationMs (interval (Autoplay env)) = Num 5000)
   \<and> duration (run (Autoplay env) ins) \<noteq> Num 0
   \<and> durationMs (interval (run (Autoplay env) ins)) \<noteq> Num 0"
proof -
  have "durations_ok (run (Autoplay env) ins)"
  proof (rule run_invariant [where P = durations_ok and Q = "\<lambda>x. True"])
    show "durations_ok (Autoplay env)" by (rule durations_ok_Autoplay)
    show "\<forall>x \<in> set ins. True" by simp
  next
    fix s' :: State and x :: "Env \<times> input"
    assume "durations_ok s'"
    then show "durations_ok (step s' x)" by (rule durations_ok_step)
  qed
  then have "duration (run (Autoplay env) ins) \<noteq> Num 0"
    and "durationMs (interval (run (Autoplay env) ins)) \<noteq> Num 0"
    by (auto simp: durations_ok_def)
  moreover have "\<forall>slide. getAt env i = Some slide
        \<and> Number (StringToNumber env) (slide (INTERVAL_DATA_ATTRIBUTE env)) = Num 0 \<longrightarrow>
      durationMs (interval (updateInterval env (Some i) s)) = duration s"
    by (simp add: updateInterval_def interval_set_def slide_interval_def Let_def)
  moreover have "opt_interval (options env) = Some (Num 0) \<longrightarrow>
        duration (Autoplay env) = Num 5000
      \<and> durationMs (interval (Autoplay env)) = Num 5000"
    by (simp add: Autoplay_def RequestInterval_new_def Let_def)
  ultimately show ?thesis by blast
qed

theorem zero_is_never_a_duration_witness:
  "getAt env_example 1 = Some [''data-splide-interval'' \<mapsto> ''0'']
   \<and> Number (StringToNumber env_example)
        ([''data-splide-interval'' \<mapsto> ''0''] (INTERVAL_DATA_ATTRIBUTE env_example)) = Num 0
   \<and> durationMs (interval (updateInterval env_example (Some 1) (Autoplay env_example))) = Num 2000
   \<and> opt_interval (options (env_example\<lparr> options :=
        (options env_example)\<lparr> opt_interval := Some (Num 0) \<rparr> \<rparr>)) = Some (Num 0)
   \<and> duration (Autoplay (env_example\<lparr> options :=
        (options env_example)\<lparr> opt_interval := Some (Num 0) \<rparr> \<rparr>)) = Num 5000
   \<and> durationMs (interval (run (Autoplay env_example)
        [(env_example, Mount), (env_example, Event (EVENT_MOVE (Some 1)))])) \<noteq> Num 0"
proof -
  let ?env0 = "env_example\<lparr> options := (options env_example)\<lparr> opt_interval := Some (Num 0) \<rparr> \<rparr>"
  let ?ins = "[(env_example, Mount), (env_example, Event (EVENT_MOVE (Some 1)))]"
  have h1: "getAt env_example 1 = Some [''data-splide-interval'' \<mapsto> ''0'']"
    and h2: "Number (StringToNumber env_example)
        ([''data-splide-interval'' \<mapsto> ''0''] (INTERVAL_DATA_ATTRIBUTE env_example)) = Num 0"
    by (simp_all add: env_example_def slides_example_def Number_def StringToNumber_digits_def)
  have h3: "opt_interval (options ?env0) = Some (Num 0)"
    by simp
  have d: "duration (Autoplay env_example) = Num 2000"
    by (simp add: Autoplay_example_value)
  from zero_is_never_a_duration [of env_example 1 "Autoplay env_example" ?ins] h1 h2 d
  have c1: "durationMs (interval (updateInterval env_example (Some 1) (Autoplay env_example)))
        = Num 2000
      \<and> durationMs (interval (run (Autoplay env_example) ?ins)) \<noteq> Num 0"
    by (simp add: eval_simps)
  from zero_is_never_a_duration [of ?env0 1 "Autoplay env_example" ?ins] h3
  have c2: "duration (Autoplay ?env0) = Num 5000"
    by (simp add: eval_simps)
  from h1 h2 h3 c1 c2 show ?thesis by blast
qed

section \<open>Mounting\<close>

text \<open>
  Claim C7, as the code has it. With a falsy \<open>autoplay\<close> option \<open>mount()\<close> changes
  nothing. With a truthy one it registers the two carousel listeners, the hover listener
  unless \<open>pauseOnHover\<close> is \<open>false\<close>, the focus listener unless \<open>pauseOnFocus\<close> is \<open>false\<close>
  and the click listener if there is a toggle button; it sets the button's
  \<open>aria-controls\<close>, calls \<open>play()\<close> if and only if \<open>stopped\<close> is false, and updates the
  button. In the initial state \<open>stopped\<close> is true exactly when the option is the string
  \<open>'pause'\<close>.
\<close>

theorem mount_effect:
  "(\<not> truthy_autoplay (opt_autoplay (options env)) \<longrightarrow> mount env s = s)
   \<and> (truthy_autoplay (opt_autoplay (options env)) \<longrightarrow>
        listeners (mount env s) =
          listeners s
          @ (if opt_pauseOnHover (options env) = Some False then [] else [on_hover])
          @ (if opt_pauseOnFocus (options env) = Some False then [] else [on_focus])
          @ (if toggle s = None then [] else [on_click])
          @ [on_rewind, on_updateInterval]
      \<and> toggle (mount env s) =
          map_option (\<lambda>b. b\<lparr> class_active := \<not> stopped (mount env s),
                              aria_label := Some (i18n env (if stopped (mount env s)
                                                            then ''play'' else ''pause'')),
                              aria_controls := Some (track_id env) \<rparr>) (toggle s)
      \<and> (stopped s \<longrightarrow>
            interval (mount env s) = interval s \<and> emitted (mount env s) = emitted s
          \<and> stopped (mount env s) \<and> hovered (mount env s) = hovered s
          \<and> focused (mount env s) = focused s)
      \<and> (\<not> stopped s \<longrightarrow>
            interval (mount env s) = interval (play env s)
          \<and> emitted (mount env s) = emitted (play env s)
          \<and> \<not> stopped (mount env s) \<and> hovered (mount env s) = hovered (play env s)
          \<and> focused (mount env s) = focused (play env s)))
   \<and> stopped (Autoplay env) = (opt_autoplay (options env) = AutoplayString ''pause'')"
proof -
  have init: "stopped (Autoplay env) = (opt_autoplay (options env) = AutoplayString ''pause'')"
    by (simp add: Autoplay_def Let_def)
  show ?thesis
  proof (cases "stopped s"; cases "isPaused (interval s)"; cases "isEnough env";
      cases "toggle s")
  qed (simp_all add: init mount_eq listen_eq play_eq updateButton_eq option.map_comp comp_def)
qed

theorem mount_effect_witness:
  "truthy_autoplay (opt_autoplay (options env_example)) \<and> \<not> stopped (Autoplay env_example)
   \<and> listeners (mount env_example (Autoplay env_example))
       = [on_hover, on_focus, on_click, on_rewind, on_updateInterval]
   \<and> interval (mount env_example (Autoplay env_example))
       = interval (play env_example (Autoplay env_example))
   \<and> emitted (mount env_example (Autoplay env_example))
       = emitted (play env_example (Autoplay env_example))
   \<and> \<not> truthy_autoplay (opt_autoplay (options env_off))
   \<and> mount env_off (Autoplay env_off) = Autoplay env_off
   \<and> truthy_autoplay (opt_autoplay (options env_pause)) \<and> stopped (Autoplay env_pause)
   \<and> interval (mount env_pause (Autoplay env_pause)) = interval (Autoplay env_pause)
   \<and> emitted (mount env_pause (Autoplay env_pause)) = emitted (Autoplay env_pause)"
proof -
  have h1: "truthy_autoplay (opt_autoplay (options env_example))
      \<and> \<not> stopped (Autoplay env_example)"
    and h2: "opt_pauseOnHover (options env_example) \<noteq> Some False"
      "opt_pauseOnFocus (options env_example) \<noteq> Some False"
      "toggle (Autoplay env_example) \<noteq> None" "listeners (Autoplay env_example) = []"
    by (simp_all add: env_example_fields Autoplay_example_value)
  have h3: "\<not> truthy_autoplay (opt_autoplay (options env_off))"
    by (simp add: env_off_def)
  have h4: "truthy_autoplay (opt_autoplay (options env_pause))"
    and h5: "opt_autoplay (options env_pause) = AutoplayString ''pause''"
    by (simp_all add: env_pause_def)
  from mount_effect [of env_example "Autoplay env_example"] h1 h2
  have c1: "listeners (mount env_example (Autoplay env_example))
       = [on_hover, on_focus, on_click, on_rewind, on_updateInterval]
     \<and> interval (mount env_example (Autoplay env_example))
       = interval (play env_example (Autoplay env_example))
     \<and> emitted (mount env_example (Autoplay env_example))
       = emitted (play env_example (Autoplay env_example))"
    by (simp add: eval_simps)
  from mount_effect [of env_off "Autoplay env_off"] h3
  have c2: "mount env_off (Autoplay env_off) = Autoplay env_off"
    by (simp add: eval_simps)
  from mount_effect [of env_pause "Autoplay env_pause"] h4 h5
  have c3: "stopped (Autoplay env_pause)
     \<and> interval (mount env_pause (Autoplay env_pause)) = interval (Autoplay env_pause)
     \<and> emitted (mount env_pause (Autoplay env_pause)) = emitted (Autoplay env_pause)"
    by (simp add: eval_simps)
  from h1 h3 h4 c1 c2 c3 show ?thesis by blast
qed

text \<open>
  The claim as written fails: with \<open>autoplay: true\<close> and \<open>pauseOnHover: false\<close> no hover
  listener is registered, and a \<open>mouseenter\<close> leaves the scheduler running.
\<close>

theorem mount_without_hover_listener:
  "truthy_autoplay (opt_autoplay (options env_nohover))
   \<and> on_hover \<notin> set (listeners (mount env_nohover (Autoplay env_nohover)))
   \<and> \<not> isPaused (interval (dispatch env_nohover mouseenter
          (mount env_nohover (Autoplay env_nohover))))"
proof -
  have env: "truthy_autoplay (opt_autoplay (options env_nohover))"
    "opt_pauseOnHover (options env_nohover) = Some False"
    "opt_pauseOnFocus (options env_nohover) = None"
    "isEnough env_nohover"
    by (simp_all add: env_nohover_def env_example_fields)
  have init: "\<not> stopped (Autoplay env_nohover)" "listeners (Autoplay env_nohover) = []"
    "isPaused (interval (Autoplay env_nohover))" "toggle (Autoplay env_nohover) \<noteq> None"
    by (simp_all add: Autoplay_def RequestInterval_new_def Let_def env_nohover_def
        env_example_def)
  have ls: "listeners (mount env_nohover (Autoplay env_nohover))
      = [on_focus, on_click, on_rewind, on_updateInterval]"
    by (simp add: mount_eq listen_eq updateButton_eq play_eq env init)
  have running: "\<not> isPaused (interval (mount env_nohover (Autoplay env_nohover)))"
    by (simp add: mount_eq updateButton_eq play_eq env init interval_start_def interval_set_def)
  have "dispatch env_nohover mouseenter (mount env_nohover (Autoplay env_nohover))
      = mount env_nohover (Autoplay env_nohover)"
    by (simp add: dispatch_def ls)
  with env ls running show ?thesis by simp
qed

section \<open>The running rule\<close>

text \<open>
  Claim C8, as the code has it. In every state reached from the initial state by calls
  of \<open>mount\<close>, \<open>play\<close>, \<open>pause\<close> and events, a running scheduler implies that \<open>stopped\<close>,
  \<open>hovered\<close> and \<open>focused\<close> are all false. The converse, and so the equivalence, holds in
  the states reached after a \<open>mount()\<close> with a truthy \<open>autoplay\<close> option, as long as
  \<open>isEnough()\<close> is true at every step and \<open>pause\<close> is not called with \<open>false\<close> from outside.
\<close>

theorem running_rule:
  "(\<not> isPaused (interval (run (Autoplay env) ins)) \<longrightarrow>
      \<not> stopped (run (Autoplay env) ins) \<and> \<not> hovered (run (Autoplay env) ins)
      \<and> \<not> focused (run (Autoplay env) ins))
   \<and> (truthy_autoplay (opt_autoplay (options env)) \<and> isEnough env
       \<and> (\<forall>x \<in> set ins. isEnough (fst x) \<and> snd x \<noteq> Pause False) \<longrightarrow>
        (\<not> isPaused (interval (run (mount env (Autoplay env)) ins))) =
        (\<not> stopped (run (mount env (Autoplay env)) ins)
         \<and> \<not> hovered (run (mount env (Autoplay env)) ins)
         \<and> \<not> focused (run (mount env (Autoplay env)) ins)))"
proof -
  let ?I1 = "\<lambda>s. \<not> isPaused (interval s) \<longrightarrow> flags_clear s"
  let ?I2 = "\<lambda>s. flags_clear s \<longrightarrow> \<not> isPaused (interval s)"
  have init: "?I1 (Autoplay env)"
    by (simp add: Autoplay_def RequestInterval_new_def Let_def)
  have one: "?I1 (run s ins)" if "?I1 s" for s
  proof (rule run_invariant [where P = ?I1 and Q = "\<lambda>x. True"])
    show "?I1 s" by (rule that)
    show "\<forall>x \<in> set ins. True" by simp
  next
    fix s' :: State and x :: "Env \<times> input"
    assume "?I1 s'"
    then show "?I1 (step s' x)" by (rule running_clear_step)
  qed
  have mounted1: "?I1 (mount env (Autoplay env))"
    using init by (rule running_clear_mount)
  have two: "?I2 (run (mount env (Autoplay env)) ins)"
    if "truthy_autoplay (opt_autoplay (options env))" "isEnough env"
      "\<forall>x \<in> set ins. isEnough (fst x) \<and> snd x \<noteq> Pause False"
  proof (rule run_invariant
      [where P = ?I2 and Q = "\<lambda>x. isEnough (fst x) \<and> snd x \<noteq> Pause False"])
    show "?I2 (mount env (Autoplay env))"
      using that(1,2) by (simp add: clear_running_mount)
    show "\<forall>x \<in> set ins. isEnough (fst x) \<and> snd x \<noteq> Pause False"
      by (rule that(3))
  next
    fix s :: State and x :: "Env \<times> input"
    assume "?I2 s" and "isEnough (fst x) \<and> snd x \<noteq> Pause False"
    then show "?I2 (step s x)" by (rule clear_running_step)
  qed
  have a: "?I1 (run (Autoplay env) ins)"
    by (rule one [OF init])
  have b: "?I1 (run (mount env (Autoplay env)) ins)"
    by (rule one [OF mounted1])
  show ?thesis
  proof (intro conjI impI)
    assume "\<not> isPaused (interval (run (Autoplay env) ins))"
    with a have "flags_clear (run (Autoplay env) ins)" by simp
    then show "\<not> stopped (run (Autoplay env) ins)"
      and "\<not> hovered (run (Autoplay env) ins)"
      and "\<not> focused (run (Autoplay env) ins)"
      by (simp_all add: flags_clear_def)
  next
    assume "truthy_autoplay (opt_autoplay (options env)) \<and> isEnough env
       \<and> (\<forall>x \<in> set ins. isEnough (fst x) \<and> snd x \<noteq> Pause False)"
    then have "?I2 (run (mount env (Autoplay env)) ins)"
      using two by blast
    with b show "(\<not> isPaused (interval (run (mount env (Autoplay env)) ins))) =
        (\<not> stopped (run (mount env (Autoplay env)) ins)
         \<and> \<not> hovered (run (mount env (Autoplay env)) ins)
         \<and> \<not> focused (run (mount env (Autoplay env)) ins))"
      unfolding flags_clear_def by blast
  qed
qed

theorem running_rule_witness:
  "truthy_autoplay (opt_autoplay (options env_example)) \<and> isEnough env_example
   \<and> hovered (run (mount env_example (Autoplay env_example)) [(env_example, Event mouseenter)])
   \<and> isPaused (interval (run (mount env_example (Autoplay env_example))
        [(env_example, Event mouseenter)]))
   \<and> (\<not> isPaused (interval (run (mount env_example (Autoplay env_example))
          [(env_example, Event mouseenter), (env_example, Event mouseleave)]))) =
      (\<not> stopped (run (mount env_example (Autoplay env_example))
          [(env_example, Event mouseenter), (env_example, Event mouseleave)])
       \<and> \<not> hovered (run (mount env_example (Autoplay env_example))
          [(env_example, Event mouseenter), (env_example, Event mouseleave)])
       \<and> \<not> focused (run (mount env_example (Autoplay env_example))
          [(env_example, Event mouseenter), (env_example, Event mouseleave)]))"
proof -
  let ?ins1 = "[(env_example, Event mouseenter)]"
  let ?ins2 = "[(env_example, Event mouseenter), (env_example, Event mouseleave)]"
  have h1: "truthy_autoplay (opt_autoplay (options env_example)) \<and> isEnough env_example"
    by (simp add: env_example_fields)
  have h2: "\<forall>x \<in> set ?ins1. isEnough (fst x) \<and> snd x \<noteq> Pause False"
    and h3: "\<forall>x \<in> set ?ins2. isEnough (fst x) \<and> snd x \<noteq> Pause False"
    by (simp_all add: env_example_fields)
  have h4: "hovered (run (mount env_example (Autoplay env_example)) ?ins1)"
    unfolding mounted_example_def [symmetric]
    by (simp add: run_def dispatch_def mounted_example_value hover_handler_def autoToggle_def
        pause_fields)
  from running_rule [of env_example ?ins1] h1 h2 h4
  have c1: "isPaused (interval (run (mount env_example (Autoplay env_example)) ?ins1))"
    by blast
  from running_rule [of env_example ?ins2] h1 h3
  have c2: "(\<not> isPaused (interval (run (mount env_example (Autoplay env_example)) ?ins2))) =
      (\<not> stopped (run (mount env_example (Autoplay env_example)) ?ins2)
       \<and> \<not> hovered (run (mount env_example (Autoplay env_example)) ?ins2)
       \<and> \<not> focused (run (mount env_example (Autoplay env_example)) ?ins2))"
    by blast
  from h1 h4 c1 c2 show ?thesis by blast
qed

text \<open>
  The claim as written fails: on a slider with too few slides \<open>mount()\<close> leaves the
  scheduler paused although none of the three flags is set.
\<close>

theorem paused_with_clear_flags:
  "isPaused (interval (run (Autoplay env_few) [(env_few, Mount)]))
   \<and> \<not> stopped (run (Autoplay env_few) [(env_few, Mount)])
   \<and> \<not> hovered (run (Autoplay env_few) [(env_few, Mount)])
   \<and> \<not> focused (run (Autoplay env_few) [(env_few, Mount)])
   \<and> \<not> ((\<not> isPaused (interval (run (Autoplay env_few) [(env_few, Mount)]))) =
          (\<not> stopped (run (Autoplay env_few) [(env_few, Mount)])
           \<and> \<not> hovered (run (Autoplay env_few) [(env_few, Mount)])
           \<and> \<not> focused (run (Autoplay env_few) [(env_few, Mount)])))"
proof -
  have env: "truthy_autoplay (opt_autoplay (options env_few))" "\<not> isEnough env_few"
    by (simp_all add: env_few_def env_example_fields)
  have init: "\<not> stopped (Autoplay env_few)" "\<not> hovered (Autoplay env_few)"
    "\<not> focused (Autoplay env_few)" "isPaused (interval (Autoplay env_few))"
    by (simp_all add: Autoplay_def RequestInterval_new_def Let_def env_few_def env_example_def)
  have "run (Autoplay env_few) [(env_few, Mount)] = mount env_few (Autoplay env_few)"
    by (simp add: run_def)
  then show ?thesis
    by (simp add: mount_eq updateButton_eq play_eq env init)
qed

section \<open>The interface without \<open>mount\<close>\<close>

text \<open>
  Claim C10. \<open>mount()\<close> changes nothing when the \<open>autoplay\<close> option is falsy, and the
  constructor leaves the scheduler paused whatever the option. Whatever the option, and
  mounted or not, \<open>play()\<close> on a paused scheduler with enough slides starts the scheduler
  and emits the play event, \<open>isPaused\<close> then reads false, and \<open>pause()\<close> pauses it again
  and emits the pause event.
\<close>

theorem public_interface_without_mount:
  "mount env s = (if truthy_autoplay (opt_autoplay (options env)) then mount env s else s)
   \<and> isPaused (interval (Autoplay env))
   \<and> (isEnough env \<longrightarrow>
        \<not> isPaused (interval (play env (Autoplay env)))
      \<and> frameHandle (interval (play env (Autoplay env)))
      \<and> emitted (play env (Autoplay env)) = [EVENT_AUTOPLAY_PLAY]
      \<and> isPaused (interval (pause env True (play env (Autoplay env))))
      \<and> emitted (pause env True (play env (Autoplay env)))
          = [EVENT_AUTOPLAY_PLAY, EVENT_AUTOPLAY_PAUSE])
   \<and> (isPaused (interval s) \<and> isEnough env \<longrightarrow>
        \<not> isPaused (interval (play env s))
      \<and> emitted (play env s) = emitted s @ [EVENT_AUTOPLAY_PLAY])"
  by (cases "Elements_toggle env"; cases "toggle s")
    (simp_all add: mount_def Autoplay_def RequestInterval_new_def Let_def component_defs)

theorem public_interface_without_mount_witness:
  "\<not> truthy_autoplay (opt_autoplay (options env_off)) \<and> isEnough env_off
   \<and> mount env_off (Autoplay env_off) = Autoplay env_off
   \<and> \<not> isPaused (interval (play env_off (Autoplay env_off)))
   \<and> emitted (play env_off (Autoplay env_off)) = [EVENT_AUTOPLAY_PLAY]
   \<and> isPaused (interval (pause env_off True (play env_off (Autoplay env_off))))
   \<and> emitted (pause env_off True (play env_off (Autoplay env_off)))
       = [EVENT_AUTOPLAY_PLAY, EVENT_AUTOPLAY_PAUSE]"
proof -
  have h: "\<not> truthy_autoplay (opt_autoplay (options env_off)) \<and> isEnough env_off"
    by (simp add: env_off_def env_example_fields)
  from public_interface_without_mount [of env_off "Autoplay env_off"] h
  show ?thesis by (simp add: eval_simps)
qed

end

